theory Spec2Isabelle
  imports Complex_Main
begin

section \<open>The traffic simulator: data model\<close>

text \<open>
  The source is \<^verbatim>\<open>traffic_simulator.py\<close>. Its coordination core is embedded here:
  the \<^verbatim>\<open>Car\<close> and \<^verbatim>\<open>Road\<close> dataclasses, \<^verbatim>\<open>can_cross\<close>,
  \<^verbatim>\<open>car_process\<close>, \<^verbatim>\<open>traffic_light_process\<close>, \<^verbatim>\<open>update_display\<close>,
  \<^verbatim>\<open>toggle_simulation\<close>, \<^verbatim>\<open>start_simulation\<close> and \<^verbatim>\<open>stop_simulation\<close>.
  Widget construction, drawing and the message queue are left out: they read the
  state below and never write it.

  Numbers: \<^verbatim>\<open>position\<close> and \<^verbatim>\<open>waiting_time\<close> are Python floats. They are
  modelled as exact rationals, so \<^verbatim>\<open>0.1\<close> is \<open>1/10\<close>; rounding of the binary
  floats is not modelled. A sum of tenths is therefore exact here, while the
  float sum is only close to it: twenty additions of \<^verbatim>\<open>0.1\<close> give
  \<^verbatim>\<open>2.0000000000000004\<close>, and the sum passes \<^verbatim>\<open>MAX_WAITING_TIME\<close> with the
  300th addition where the exact sum passes it with the 301st. What is proved
  below about \<^verbatim>\<open>position\<close> for all runs is that it is zero or that it is not
  negative, which rounding does not affect.
\<close>

datatype LightState = RED | GREEN | YELLOW

text \<open>\<^verbatim>\<open>Car.state\<close> is a string; the source assigns it only the three values
  \<^verbatim>\<open>"waiting"\<close>, \<^verbatim>\<open>"crossing"\<close> and \<^verbatim>\<open>"exited"\<close>.\<close>

datatype CarState = Waiting | Crossing | Exited

record Car =
  car_id :: int
  road_num :: int
  position :: rat
  speed :: rat
  waiting_time :: rat
  state :: CarState

text \<open>
  A \<^verbatim>\<open>Road\<close> holds its light and the list \<^verbatim>\<open>cars\<close> of references to car objects.
  A reference is the index of the car's thread in the pool of car threads below
  (every car object is created by, and local to, exactly one car thread). The
  fields \<^verbatim>\<open>name\<close>, \<^verbatim>\<open>last_light_change\<close>, \<^verbatim>\<open>queue_length\<close> and
  \<^verbatim>\<open>semaphore\<close> are never read by the core and are left out.

  The source takes two different locks. \<^verbatim>\<open>road.lock\<close> is held around the
  append of a car and around its removal; the field \<open>locked\<close> tells whether some
  thread holds it, and the removal block is split into its statements, so that
  the blocks of the other lock can run in between (the drawing code of the GUI
  takes \<^verbatim>\<open>road.lock\<close> too, only to read, and is left out). The lock of
  \<^verbatim>\<open>road.condition\<close> is held around the admission test, the light changes and
  the resets; each of these blocks is one step, and waiting on the condition is
  modelled by the program points \<open>At_wait\<close> and \<open>At_woken\<close>.
\<close>

record Road =
  light_state :: LightState
  cars :: "nat list"
  locked :: bool

datatype error = ValueError

text \<open>
  Program points of \<^verbatim>\<open>car_process\<close>, one per stretch of code that runs without
  releasing a lock or sleeping:
  \<^item> \<open>At_arrive\<close>: thread started, before \<^verbatim>\<open>road.cars.append(car)\<close>;
  \<^item> \<open>At_loop\<close>: at the test of the \<^verbatim>\<open>while\<close> loop;
  \<^item> \<open>At_lock\<close>: about to enter \<^verbatim>\<open>with road.condition\<close>;
  \<^item> \<open>At_wait\<close>: blocked in \<^verbatim>\<open>road.condition.wait()\<close>;
  \<^item> \<open>At_woken\<close>: notified, about to return from \<^verbatim>\<open>wait()\<close>;
  \<^item> \<open>At_after\<close>: after the loop, at \<^verbatim>\<open>if car.state == "crossing"\<close>;
  \<^item> \<open>At_cross\<close>: at the test of the crossing loop;
  \<^item> \<open>At_exit\<close>: about to enter the final \<^verbatim>\<open>with road.lock\<close> and to test
    \<^verbatim>\<open>car in road.cars\<close>;
  \<^item> \<open>At_remove\<close>: holding \<^verbatim>\<open>road.lock\<close>, about to run \<^verbatim>\<open>road.cars.remove(car)\<close>;
  \<^item> \<open>At_mark\<close>: holding \<^verbatim>\<open>road.lock\<close>, about to run \<^verbatim>\<open>car.state = "exited"\<close>;
  \<^item> \<open>At_done\<close>: returned; \<open>At_raised\<close>: ended by an exception.
\<close>

datatype car_pc =
  At_arrive | At_loop | At_lock | At_wait | At_woken | At_after | At_cross | At_exit
  | At_remove | At_mark | At_done | At_raised

text \<open>A car thread: its local \<^verbatim>\<open>car\<close> object and its program point.\<close>

record CarThread =
  car :: Car
  pc :: car_pc

text \<open>Program points of \<^verbatim>\<open>traffic_light_process\<close>: the \<^verbatim>\<open>while\<close> test, the
  \<^verbatim>\<open>if not self.is_running\<close> test for a road of the \<^verbatim>\<open>for\<close> loop, and the three
  \<^verbatim>\<open>with road.condition\<close> blocks for that road.\<close>

datatype light_pc = L_while | L_for int | L_green int | L_yellow int | L_red int | L_done

datatype display_pc = D_while | D_done

text \<open>The GUI thread runs the callbacks of the button and of the inputs one at a
  time. It is either idle, or inside \<^verbatim>\<open>stop_simulation\<close> between the writes of
  that call and its return, where it waits in the two \<^verbatim>\<open>join(timeout=1.0)\<close>
  calls (each is skipped when there is no thread handle); until the call returns
  no other callback runs.\<close>

datatype gui_pc = G_idle | G_joining

text \<open>
  The simulator object. \<^verbatim>\<open>self.roads\<close> is a dict with the two keys 1 and 2,
  modelled as the fields \<open>road1\<close> and \<open>road2\<close>. The three input widgets are modelled
  by what the source reads from them: \<open>case_var\<close> is \<^verbatim>\<open>int(self.case_var.get())\<close>
  (a radio button with the values "1" and "2"), \<open>cars_entry\<close> and \<open>k_entry\<close> are
  the results of \<^verbatim>\<open>int(self.cars_entry.get())\<close> and \<^verbatim>\<open>int(self.k_entry.get())\<close>,
  \<open>None\<close> when \<^verbatim>\<open>int\<close> raises \<^verbatim>\<open>ValueError\<close>.

  The pools hold every thread ever started, with its program point. The fields
  \<open>car_threads\<close>, \<open>light_thread\<close> and \<open>display_thread\<close> are the handles the
  simulator object keeps (indices into the pools). \<open>gui\<close> is the program point
  of the GUI thread.
\<close>

record Sim =
  is_running :: bool
  case_type :: int
  road1 :: Road
  road2 :: Road
  case_var :: int
  cars_entry :: "int option"
  k_entry :: "int option"
  car_pool :: "CarThread list"
  light_pool :: "light_pc list"
  display_pool :: "display_pc list"
  car_threads :: "nat list"
  light_thread :: "nat option"
  display_thread :: "nat option"
  gui :: gui_pc

definition LIGHT_DURATION :: rat where "LIGHT_DURATION = 5"
definition CAR_CROSSING_TIME :: rat where "CAR_CROSSING_TIME = 2"
definition CANVAS_WIDTH :: rat where "CANVAS_WIDTH = 500"
definition MAX_WAITING_TIME :: rat where "MAX_WAITING_TIME = 30"
definition SAFE_DISTANCE :: rat where "SAFE_DISTANCE = 10"

text \<open>\<^verbatim>\<open>self.roads[road_num]\<close> and the assignment to a field of that road.\<close>

definition road_of :: "Sim \<Rightarrow> int \<Rightarrow> Road" where
  "road_of s r = (if r = 1 then road1 s else road2 s)"

definition set_road :: "int \<Rightarrow> Road \<Rightarrow> Sim \<Rightarrow> Sim" where
  "set_road r rd s = (if r = 1 then s\<lparr>road1 := rd\<rparr> else s\<lparr>road2 := rd\<rparr>)"

text \<open>The car objects a road's list refers to, in list order.\<close>

definition road_cars :: "Sim \<Rightarrow> Road \<Rightarrow> Car list" where
  "road_cars s road = map (\<lambda>i. car (car_pool s ! i)) (cars road)"

section \<open>The admission function\<close>

text \<open>\<^verbatim>\<open>max(crossing_cars, key=lambda c: c.position)\<close>: the first car of greatest
  position; \<^verbatim>\<open>max\<close> of an empty list raises \<^verbatim>\<open>ValueError\<close>.\<close>

fun max_by_position :: "Car list \<Rightarrow> Car option" where
  "max_by_position [] = None"
| "max_by_position (c # cs) =
     Some (foldl (\<lambda>best x. if position best < position x then x else best) c cs)"

definition can_cross :: "Sim \<Rightarrow> Road \<Rightarrow> Car \<Rightarrow> error + bool" where
  "can_cross s road c =
     (if case_type s = 1 then
        Inr (\<not> list_ex (\<lambda>x. state x = Crossing) (road_cars s road))
      else
        (case k_entry s of
           None \<Rightarrow> Inl ValueError
         | Some k \<Rightarrow>
            (let crossing_cars = filter (\<lambda>x. state x = Crossing) (road_cars s road) in
             if crossing_cars = [] then Inr True
             else if k \<le> int (length crossing_cars) then Inr False
             else if position c = 0 then Inr True
             else
               (case max_by_position crossing_cars of
                  None \<Rightarrow> Inl ValueError
                | Some last_car \<Rightarrow>
                    (let min_distance = SAFE_DISTANCE / CANVAS_WIDTH in
                     Inr (min_distance \<le> position c - position last_car))))))"

text \<open>
  The admission rule of BOUNDED(k) mode as the specification words it, over the
  snapshot of a road's cars: with \<open>crossing\<close> the cars in state CROSSING, admit if
  it is empty, reject if it has at least \<open>k\<close> members, admit a candidate of
  progress 0, and otherwise admit iff the candidate is ahead of the farthest
  crossing car by at least the safe spacing.
\<close>

definition spec_bounded_admit :: "int \<Rightarrow> rat \<Rightarrow> Car list \<Rightarrow> Car \<Rightarrow> bool" where
  "spec_bounded_admit k safe_spacing snapshot candidate =
     (let crossing = filter (\<lambda>x. state x = Crossing) snapshot in
      if crossing = [] then True
      else if k \<le> int (length crossing) then False
      else if position candidate = 0 then True
      else safe_spacing \<le> position candidate - Max (position ` set crossing))"

section \<open>Condition variables\<close>

text \<open>\<^verbatim>\<open>road.condition.notify_all()\<close> for road \<open>r\<close>: every car thread of that road
  that is blocked in \<^verbatim>\<open>wait()\<close> becomes ready to return from it.\<close>

definition notify_all :: "int \<Rightarrow> CarThread list \<Rightarrow> CarThread list" where
  "notify_all r pool =
     map (\<lambda>t. if road_num (car t) = r \<and> pc t = At_wait then t\<lparr>pc := At_woken\<rparr> else t) pool"

section \<open>The orchestrator\<close>

text \<open>
  \<^verbatim>\<open>stop_simulation\<close>, from its first statement up to the first \<^verbatim>\<open>join\<close>: the
  writes of the call. The button text, the canvas and the log are left out.
  After these writes the call waits in \<^verbatim>\<open>self.light_thread.join(timeout=1.0)\<close>
  and \<^verbatim>\<open>self.display_thread.join(timeout=1.0)\<close>, which write nothing
  themselves; the GUI thread is then at \<open>G_joining\<close>. The other threads go on
  taking steps during the wait, and the call returns with the event
  \<open>JoinReturn\<close> of the step relation below, when the joined threads have ended
  or the timeouts have run out.
\<close>

definition stop_simulation :: "Sim \<Rightarrow> Sim" where
  "stop_simulation s =
     s\<lparr>is_running := False,
       car_threads := [],
       road1 := (road1 s)\<lparr>cars := [], light_state := RED\<rparr>,
       road2 := (road2 s)\<lparr>cars := [], light_state := RED\<rparr>,
       car_pool := notify_all 2 (notify_all 1 (car_pool s)),
       gui := G_joining\<rparr>"

text \<open>
  \<^verbatim>\<open>start_simulation\<close>. The argument \<open>rs\<close> lists the results of the successive
  calls \<^verbatim>\<open>random.randint(1, 2)\<close>. The result pairs the exception raised, if any,
  with the state left behind. The car object of a thread is created as the
  first statement of \<^verbatim>\<open>car_process\<close>; here it is created with the thread.
\<close>

definition new_car_thread :: "nat \<Rightarrow> int \<Rightarrow> CarThread" where
  "new_car_thread i r =
     \<lparr>car = \<lparr>car_id = int i + 1, road_num = r, position = 0, speed = 0,
             waiting_time = 0, state = Waiting\<rparr>,
      pc = At_arrive\<rparr>"

text \<open>The threads of the loop \<^verbatim>\<open>for i in range(num_cars)\<close>, with the draws \<open>rs\<close>.\<close>

definition spawned_cars :: "int \<Rightarrow> int list \<Rightarrow> CarThread list" where
  "spawned_cars num_cars rs = map (\<lambda>(i, r). new_car_thread i r) (zip [0..<nat num_cars] rs)"

definition start_simulation :: "Sim \<Rightarrow> int list \<Rightarrow> error option \<times> Sim" where
  "start_simulation s rs =
     (let s1 = s\<lparr>is_running := True, case_type := case_var s\<rparr> in
      case cars_entry s of
        None \<Rightarrow> (Some ValueError, s1)
      | Some num_cars \<Rightarrow>
         (let n = length (car_pool s);
              spawned = spawned_cars num_cars rs
          in (None,
              s1\<lparr>car_threads := map (\<lambda>i. n + i) [0..<length spawned],
                 road1 := (road1 s)\<lparr>cars := [], light_state := RED\<rparr>,
                 road2 := (road2 s)\<lparr>cars := [], light_state := RED\<rparr>,
                 car_pool := notify_all 2 (notify_all 1 (car_pool s)) @ spawned,
                 light_pool := light_pool s @ [L_while],
                 light_thread := Some (length (light_pool s)),
                 display_pool := display_pool s @ [D_while],
                 display_thread := Some (length (display_pool s))\<rparr>)))"

definition toggle_simulation :: "Sim \<Rightarrow> int list \<Rightarrow> error option \<times> Sim" where
  "toggle_simulation s rs =
     (if \<not> is_running s then start_simulation s rs else (None, stop_simulation s))"

section \<open>The threads\<close>

definition set_thread :: "nat \<Rightarrow> CarThread \<Rightarrow> Sim \<Rightarrow> Sim" where
  "set_thread i t s = s\<lparr>car_pool := (car_pool s)[i := t]\<rparr>"

text \<open>\<^verbatim>\<open>car in road.cars\<close> and \<^verbatim>\<open>road.cars.remove(car)\<close>. \<^verbatim>\<open>Car\<close> is a
  dataclass, so \<^verbatim>\<open>in\<close> and \<^verbatim>\<open>remove\<close> compare field by field: \<^verbatim>\<open>remove\<close>
  deletes the first entry whose car equals \<open>c\<close> and raises \<^verbatim>\<open>ValueError\<close> when
  there is none.\<close>

fun remove_first :: "('a \<Rightarrow> bool) \<Rightarrow> 'a list \<Rightarrow> 'a list" where
  "remove_first P [] = []"
| "remove_first P (x # xs) = (if P x then xs else x # remove_first P xs)"

definition car_in :: "Sim \<Rightarrow> Car \<Rightarrow> nat list \<Rightarrow> bool" where
  "car_in s c refs = list_ex (\<lambda>j. car (car_pool s ! j) = c) refs"

definition remove_car :: "Sim \<Rightarrow> Car \<Rightarrow> nat list \<Rightarrow> error + nat list" where
  "remove_car s c refs =
     (if car_in s c refs then Inr (remove_first (\<lambda>j. car (car_pool s ! j) = c) refs)
      else Inl ValueError)"

text \<open>
  One step of car thread \<open>i\<close>: the code from its program point to the next one.
  \<open>now\<close> is the value of \<^verbatim>\<open>time.time() - start_time\<close> read by the test of the
  crossing loop; nothing is assumed about the readings, so the loop may run any
  number of rounds. A thread at \<open>At_wait\<close> is blocked and has no step, and so is
  a thread that needs \<^verbatim>\<open>road.lock\<close> while another thread holds it. The final
  block releases the lock when it ends, also when \<^verbatim>\<open>remove\<close> raises.
\<close>

definition car_process :: "Sim \<Rightarrow> nat \<Rightarrow> rat \<Rightarrow> Sim option" where
  "car_process s i now =
     (let t = car_pool s ! i; c = car t; road = road_of s (road_num c) in
      case pc t of
        At_arrive \<Rightarrow>
          (if locked road then None
           else Some (set_road (road_num c) (road\<lparr>cars := cars road @ [i]\<rparr>)
                       (set_thread i (t\<lparr>pc := At_loop\<rparr>) s)))
      | At_loop \<Rightarrow>
          Some (set_thread i
                 (t\<lparr>pc := (if is_running s \<and> state c \<noteq> Exited then At_lock else At_after)\<rparr>) s)
      | At_lock \<Rightarrow>
          (if light_state road = GREEN \<or> light_state road = YELLOW then
             (case can_cross s road c of
                Inl e \<Rightarrow> Some (set_thread i (t\<lparr>pc := At_raised\<rparr>) s)
              | Inr ok \<Rightarrow>
                  if ok then Some (set_thread i (t\<lparr>car := c\<lparr>state := Crossing\<rparr>, pc := At_after\<rparr>) s)
                  else Some (set_thread i (t\<lparr>pc := At_wait\<rparr>) s))
           else Some (set_thread i (t\<lparr>pc := At_wait\<rparr>) s))
      | At_wait \<Rightarrow> None
      | At_woken \<Rightarrow>
          (let w = waiting_time c + 1 / 10 in
           Some (set_thread i
                  (t\<lparr>car := c\<lparr>waiting_time := w\<rparr>,
                     pc := (if MAX_WAITING_TIME < w then At_after else At_loop)\<rparr>) s))
      | At_after \<Rightarrow>
          Some (set_thread i (t\<lparr>pc := (if state c = Crossing then At_cross else At_done)\<rparr>) s)
      | At_cross \<Rightarrow>
          (if now < CAR_CROSSING_TIME then
             Some (set_thread i (t\<lparr>car := c\<lparr>position := position c + 1 / 10\<rparr>\<rparr>) s)
           else Some (set_thread i (t\<lparr>pc := At_exit\<rparr>) s))
      | At_exit \<Rightarrow>
          (if locked road then None
           else Some (set_road (road_num c) (road\<lparr>locked := True\<rparr>)
                       (set_thread i
                          (t\<lparr>pc := (if car_in s c (cars road) then At_remove else At_mark)\<rparr>) s)))
      | At_remove \<Rightarrow>
          (case remove_car s c (cars road) of
             Inl e \<Rightarrow>
               Some (set_road (road_num c) (road\<lparr>locked := False\<rparr>)
                      (set_thread i (t\<lparr>pc := At_raised\<rparr>) s))
           | Inr refs \<Rightarrow>
               Some (set_road (road_num c) (road\<lparr>cars := refs\<rparr>)
                      (set_thread i (t\<lparr>pc := At_mark\<rparr>) s)))
      | At_mark \<Rightarrow>
          Some (set_road (road_num c) (road\<lparr>locked := False\<rparr>)
                 (set_thread i (t\<lparr>car := c\<lparr>state := Exited\<rparr>, pc := At_done\<rparr>) s))
      | At_done \<Rightarrow> None
      | At_raised \<Rightarrow> None)"

text \<open>Writing a road's light inside \<^verbatim>\<open>with road.condition\<close>, followed by
  \<^verbatim>\<open>notify_all()\<close>.\<close>

definition set_light :: "int \<Rightarrow> LightState \<Rightarrow> Sim \<Rightarrow> Sim" where
  "set_light r l s =
     (set_road r ((road_of s r)\<lparr>light_state := l\<rparr>) s)\<lparr>car_pool := notify_all r (car_pool s)\<rparr>"

text \<open>One step of light thread \<open>j\<close>. The \<^verbatim>\<open>for\<close> loop visits road 1, then road 2;
  its \<^verbatim>\<open>break\<close> leads back to the \<^verbatim>\<open>while\<close> test.\<close>

definition set_light_pc :: "nat \<Rightarrow> light_pc \<Rightarrow> Sim \<Rightarrow> Sim" where
  "set_light_pc j p s = s\<lparr>light_pool := (light_pool s)[j := p]\<rparr>"

definition traffic_light_process :: "Sim \<Rightarrow> nat \<Rightarrow> Sim option" where
  "traffic_light_process s j =
     (case light_pool s ! j of
        L_while \<Rightarrow> Some (set_light_pc j (if is_running s then L_for 1 else L_done) s)
      | L_for r \<Rightarrow> Some (set_light_pc j (if \<not> is_running s then L_while else L_green r) s)
      | L_green r \<Rightarrow> Some (set_light_pc j (L_yellow r) (set_light r GREEN s))
      | L_yellow r \<Rightarrow> Some (set_light_pc j (L_red r) (set_light r YELLOW s))
      | L_red r \<Rightarrow>
          Some (set_light_pc j (if r = 1 then L_for 2 else L_while) (set_light r RED s))
      | L_done \<Rightarrow> None)"

text \<open>One step of display thread \<open>j\<close>: it only posts a message while the flag is
  set.\<close>

definition update_display :: "Sim \<Rightarrow> nat \<Rightarrow> Sim option" where
  "update_display s j =
     (case display_pool s ! j of
        D_while \<Rightarrow>
          Some (if is_running s then s else s\<lparr>display_pool := (display_pool s)[j := D_done]\<rparr>)
      | D_done \<Rightarrow> None)"

section \<open>The step relation\<close>

text \<open>
  What can happen next: the user clicks the start/stop button (the only caller
  of \<^verbatim>\<open>toggle_simulation\<close>; an exception raised there is reported by the GUI
  main loop and the program goes on), the user edits one of the three inputs,
  one thread takes its next step, or \<^verbatim>\<open>stop_simulation\<close> comes back from its
  joins (\<open>JoinReturn\<close>). Clicks and edits are callbacks of the GUI thread and
  need it to be idle; the steps of the other threads do not.
\<close>

datatype event =
  Toggle "int list"
| EditCase int
| EditCars "int option"
| EditK "int option"
| CarStep nat rat
| LightStep nat
| DisplayStep nat
| JoinReturn

text \<open>The random draws supplied with a click: each is 1 or 2, and a start that
  gets as far as spawning consumes exactly \<^verbatim>\<open>num_cars\<close> of them.\<close>

definition draws_ok :: "Sim \<Rightarrow> int list \<Rightarrow> bool" where
  "draws_ok s rs =
     (list_all (\<lambda>r. r = 1 \<or> r = 2) rs \<and>
      length rs = (if is_running s then 0
                   else case cars_entry s of None \<Rightarrow> 0 | Some n \<Rightarrow> nat n))"

definition step :: "Sim \<Rightarrow> event \<Rightarrow> Sim option" where
  "step s ev =
     (case ev of
        Toggle rs \<Rightarrow>
          if gui s = G_idle \<and> draws_ok s rs then Some (snd (toggle_simulation s rs)) else None
      | EditCase v \<Rightarrow>
          if gui s = G_idle \<and> (v = 1 \<or> v = 2) then Some (s\<lparr>case_var := v\<rparr>) else None
      | EditCars e \<Rightarrow> if gui s = G_idle then Some (s\<lparr>cars_entry := e\<rparr>) else None
      | EditK e \<Rightarrow> if gui s = G_idle then Some (s\<lparr>k_entry := e\<rparr>) else None
      | CarStep i now \<Rightarrow> if i < length (car_pool s) then car_process s i now else None
      | LightStep j \<Rightarrow> if j < length (light_pool s) then traffic_light_process s j else None
      | DisplayStep j \<Rightarrow> if j < length (display_pool s) then update_display s j else None
      | JoinReturn \<Rightarrow> if gui s = G_joining then Some (s\<lparr>gui := G_idle\<rparr>) else None)"

fun exec :: "Sim \<Rightarrow> event list \<Rightarrow> Sim option" where
  "exec s [] = Some s"
| "exec s (ev # evs) = (case step s ev of None \<Rightarrow> None | Some s' \<Rightarrow> exec s' evs)"

text \<open>The state built by \<^verbatim>\<open>__init__\<close>: both lights red, no cars, no threads,
  no lock held, and the defaults "1", "10" and "3" in the three inputs.\<close>

definition init_sim :: Sim where
  "init_sim =
     \<lparr>is_running = False, case_type = 1,
      road1 = \<lparr>light_state = RED, cars = [], locked = False\<rparr>,
      road2 = \<lparr>light_state = RED, cars = [], locked = False\<rparr>,
      case_var = 1, cars_entry = Some 10, k_entry = Some 3,
      car_pool = [], light_pool = [], display_pool = [],
      car_threads = [], light_thread = None, display_thread = None, gui = G_idle\<rparr>"

definition reachable :: "Sim \<Rightarrow> bool" where
  "reachable s = (\<exists>evs. exec init_sim evs = Some s)"

section \<open>Invariants of the step relation\<close>

text \<open>
  A road's list is well formed when it has no duplicates and each entry refers to
  a thread of the pool that has passed \<^verbatim>\<open>road.cars.append(car)\<close> and whose car
  belongs to that road.
\<close>

definition ok_refs :: "CarThread list \<Rightarrow> int \<Rightarrow> nat list \<Rightarrow> bool" where
  "ok_refs pool r xs =
     (distinct xs \<and>
      (\<forall>i \<in> set xs. i < length pool \<and> pc (pool ! i) \<noteq> At_arrive \<and> road_num (car (pool ! i)) = r))"

definition roads_ok :: "CarThread list \<Rightarrow> bool" where
  "roads_ok pool = (\<forall>t \<in> set pool. road_num (car t) = 1 \<or> road_num (car t) = 2)"


text \<open>
  What a thread's program point says about its own car: its progress is never
  negative; the car is WAITING at progress 0 up to the admission, and CROSSING
  from the crossing loop up to the assignment of \<^verbatim>\<open>"exited"\<close>.
\<close>

definition thread_ok :: "CarThread \<Rightarrow> bool" where
  "thread_ok t =
     (0 \<le> position (car t) \<and> (state (car t) = Waiting \<longrightarrow> position (car t) = 0) \<and>
      (case pc t of
         At_after \<Rightarrow> state (car t) \<noteq> Exited
       | At_cross \<Rightarrow> state (car t) = Crossing
       | At_exit \<Rightarrow> state (car t) = Crossing
       | At_remove \<Rightarrow> state (car t) = Crossing
       | At_mark \<Rightarrow> state (car t) = Crossing
       | At_done \<Rightarrow> state (car t) \<noteq> Crossing
       | At_raised \<Rightarrow> True
       | _ \<Rightarrow> state (car t) = Waiting))"

definition threads_ok :: "CarThread list \<Rightarrow> bool" where
  "threads_ok pool = (\<forall>t \<in> set pool. thread_ok t)"

text \<open>The entries of a road's list whose car is in state CROSSING.\<close>

definition crossing_refs :: "CarThread list \<Rightarrow> nat list \<Rightarrow> nat list" where
  "crossing_refs pool xs = filter (\<lambda>i. state (car (pool ! i)) = Crossing) xs"

text \<open>While the running flag is off, a listed car belongs to a thread that has
  not got past the test of its loop.\<close>

definition idle_refs :: "CarThread list \<Rightarrow> nat list \<Rightarrow> bool" where
  "idle_refs pool xs =
     (\<forall>i \<in> set xs. (pc (pool ! i) = At_loop \<or> pc (pool ! i) = At_after \<or> pc (pool ! i) = At_done)
        \<and> state (car (pool ! i)) = Waiting)"




text \<open>
  The lights as one controller thread leaves them: both red between its visits
  to the roads, and while it serves a road the other road is red. A click on
  stop may turn the served road red early.
\<close>

definition served :: "light_pc \<Rightarrow> LightState \<Rightarrow> LightState \<Rightarrow> bool" where
  "served p l1 l2 =
     (case p of
        L_while \<Rightarrow> l1 = RED \<and> l2 = RED
      | L_for r \<Rightarrow> (r = 1 \<or> r = 2) \<and> l1 = RED \<and> l2 = RED
      | L_green r \<Rightarrow> (r = 1 \<or> r = 2) \<and> l1 = RED \<and> l2 = RED
      | L_yellow r \<Rightarrow> r = 1 \<and> l2 = RED \<or> r = 2 \<and> l1 = RED
      | L_red r \<Rightarrow> r = 1 \<and> l2 = RED \<or> r = 2 \<and> l1 = RED
      | L_done \<Rightarrow> l1 = RED \<and> l2 = RED)"

definition lights_inv :: "Sim \<Rightarrow> bool" where
  "lights_inv s =
     (case light_pool s of
        [] \<Rightarrow> light_state (road1 s) = RED \<and> light_state (road2 s) = RED
      | [p] \<Rightarrow> served p (light_state (road1 s)) (light_state (road2 s))
      | _ \<Rightarrow> True)"

text \<open>The events that are a step of a light thread, and the clicks.\<close>

fun is_light_step :: "event \<Rightarrow> bool" where
  "is_light_step (LightStep j) = True"
| "is_light_step ev = False"

fun is_toggle :: "event \<Rightarrow> bool" where
  "is_toggle (Toggle rs) = True"
| "is_toggle ev = False"


section \<open>Concrete states and traces\<close>

text \<open>A state in BOUNDED mode with \<open>k = 3\<close>: two cars are crossing road 1 and a
  third one, still at progress 0, asks for admission.\<close>

definition bounded_demo :: Sim where
  "bounded_demo =
     init_sim\<lparr>is_running := True, case_type := 2, case_var := 2,
       road1 := \<lparr>light_state = GREEN, cars = [0, 1, 2], locked = False\<rparr>,
       car_pool :=
         [\<lparr>car = \<lparr>car_id = 1, road_num = 1, position = 3 / 10, speed = 0, waiting_time = 0,
                  state = Crossing\<rparr>, pc = At_cross\<rparr>,
          \<lparr>car = \<lparr>car_id = 2, road_num = 1, position = 1 / 10, speed = 0, waiting_time = 0,
                  state = Crossing\<rparr>, pc = At_cross\<rparr>,
          \<lparr>car = \<lparr>car_id = 3, road_num = 1, position = 0, speed = 0, waiting_time = 1 / 10,
                  state = Waiting\<rparr>, pc = At_lock\<rparr>],
       light_pool := [L_yellow 1], display_pool := [D_while]\<rparr>"



text \<open>
  One car on road 1 is admitted under a green light and runs twelve rounds of
  the crossing loop; each \<^verbatim>\<open>time.sleep(0.1)\<close> takes 0.11 seconds.
\<close>

definition progress_trace :: "event list" where
  "progress_trace =
     [EditCars (Some 1), Toggle [1], LightStep 0, LightStep 0, LightStep 0,
      CarStep 0 0, CarStep 0 0, CarStep 0 0, CarStep 0 0,
      CarStep 0 0, CarStep 0 (11 / 100), CarStep 0 (22 / 100), CarStep 0 (33 / 100),
      CarStep 0 (44 / 100), CarStep 0 (55 / 100), CarStep 0 (66 / 100), CarStep 0 (77 / 100),
      CarStep 0 (88 / 100), CarStep 0 (99 / 100), CarStep 0 (110 / 100), CarStep 0 (121 / 100)]"

definition progress_state :: Sim where
  "progress_state =
     \<lparr>is_running = True, case_type = 1,
      road1 = \<lparr>light_state = GREEN, cars = [0], locked = False\<rparr>,
      road2 = \<lparr>light_state = RED, cars = [], locked = False\<rparr>,
      case_var = 1, cars_entry = Some 1, k_entry = Some 3,
      car_pool =
        [\<lparr>car = \<lparr>car_id = 1, road_num = 1, position = 6 / 5, speed = 0, waiting_time = 0,
                 state = Crossing\<rparr>,
          pc = At_cross\<rparr>],
      light_pool = [L_yellow 1], display_pool = [D_while],
      car_threads = [0], light_thread = Some 0, display_thread = Some 0, gui = G_idle\<rparr>"

text \<open>A run without cars, up to the moment the light thread has turned road 1
  green.\<close>

definition green_trace :: "event list" where
  "green_trace = [EditCars (Some 0), Toggle [], LightStep 0, LightStep 0, LightStep 0]"

definition green_state :: Sim where
  "green_state =
     \<lparr>is_running = True, case_type = 1,
      road1 = \<lparr>light_state = GREEN, cars = [], locked = False\<rparr>,
      road2 = \<lparr>light_state = RED, cars = [], locked = False\<rparr>,
      case_var = 1, cars_entry = Some 0, k_entry = Some 3,
      car_pool = [], light_pool = [L_yellow 1], display_pool = [D_while],
      car_threads = [], light_thread = Some 0, display_thread = Some 0, gui = G_idle\<rparr>"

text \<open>A run with one car, which has arrived on road 1.\<close>

definition run_trace :: "event list" where
  "run_trace = [EditCars (Some 1), Toggle [1], CarStep 0 0]"

definition running_state :: Sim where
  "running_state =
     \<lparr>is_running = True, case_type = 1,
      road1 = \<lparr>light_state = RED, cars = [0], locked = False\<rparr>,
      road2 = \<lparr>light_state = RED, cars = [], locked = False\<rparr>,
      case_var = 1, cars_entry = Some 1, k_entry = Some 3,
      car_pool =
        [\<lparr>car = \<lparr>car_id = 1, road_num = 1, position = 0, speed = 0, waiting_time = 0,
                 state = Waiting\<rparr>,
          pc = At_loop\<rparr>],
      light_pool = [L_while], display_pool = [D_while],
      car_threads = [0], light_thread = Some 0, display_thread = Some 0, gui = G_idle\<rparr>"

text \<open>
  A car that waits until it gives up. One car is spawned on road 1 in EXCLUSIVE
  mode and blocks under the red light (\<open>starve_prefix\<close>). In each round of the
  light thread (\<open>wait_round\<close>) it is woken by the change to green, adds 0.1 to
  its waiting time and goes back to the loop test, but enters the locked block
  only after the light is red again, and blocks again. \<open>waiting_state n\<close> is the
  state after \<open>n\<close> such rounds. In the round after the 300th (\<open>last_round\<close>) the
  waiting time passes \<^verbatim>\<open>MAX_WAITING_TIME\<close> and the thread leaves the loop and
  returns.
\<close>

definition starve_prefix :: "event list" where
  "starve_prefix = [EditCars (Some 1), Toggle [1], CarStep 0 0, CarStep 0 0, CarStep 0 0]"

definition wait_round :: "event list" where
  "wait_round =
     [LightStep 0, LightStep 0, LightStep 0, CarStep 0 0, CarStep 0 0, LightStep 0, LightStep 0,
      CarStep 0 0, LightStep 0, LightStep 0, LightStep 0, LightStep 0]"

definition last_round :: "event list" where
  "last_round = [LightStep 0, LightStep 0, LightStep 0, CarStep 0 0, CarStep 0 0]"

definition starvation_trace :: "event list" where
  "starvation_trace = starve_prefix @ concat (replicate 300 wait_round) @ last_round"

definition waiting_state :: "nat \<Rightarrow> Sim" where
  "waiting_state n =
     \<lparr>is_running = True, case_type = 1,
      road1 = \<lparr>light_state = RED, cars = [0], locked = False\<rparr>,
      road2 = \<lparr>light_state = RED, cars = [], locked = False\<rparr>,
      case_var = 1, cars_entry = Some 1, k_entry = Some 3,
      car_pool =
        [\<lparr>car = \<lparr>car_id = 1, road_num = 1, position = 0, speed = 0,
                 waiting_time = of_nat n / 10, state = Waiting\<rparr>,
          pc = At_wait\<rparr>],
      light_pool = [L_while], display_pool = [D_while],
      car_threads = [0], light_thread = Some 0, display_thread = Some 0, gui = G_idle\<rparr>"

definition abandoned_state :: Sim where
  "abandoned_state =
     \<lparr>is_running = True, case_type = 1,
      road1 = \<lparr>light_state = GREEN, cars = [0], locked = False\<rparr>,
      road2 = \<lparr>light_state = RED, cars = [], locked = False\<rparr>,
      case_var = 1, cars_entry = Some 1, k_entry = Some 3,
      car_pool =
        [\<lparr>car = \<lparr>car_id = 1, road_num = 1, position = 0, speed = 0,
                 waiting_time = 301 / 10, state = Waiting\<rparr>,
          pc = At_done\<rparr>],
      light_pool = [L_yellow 1], display_pool = [D_while],
      car_threads = [0], light_thread = Some 0, display_thread = Some 0, gui = G_idle\<rparr>"












section \<open>The greatest position\<close>

lemma foldl_best_mem:
  "foldl (\<lambda>best x. if position best < position x then x else best) c cs \<in> set (c # cs)"
  by (induction cs arbitrary: c) auto

lemma foldl_best_ge_start:
  "position c \<le> position (foldl (\<lambda>best x. if position best < position x then x else best) c cs)"
proof (induction cs arbitrary: c)
  case Nil
  show ?case by simp
next
  case (Cons x xs)
  show ?case using Cons[of x] Cons[of c] by (auto simp: less_imp_le elim: order_trans[rotated])
qed

lemma foldl_best_ge_all:
  "y \<in> set cs \<Longrightarrow>
   position y \<le> position (foldl (\<lambda>best x. if position best < position x then x else best) c cs)"
proof (induction cs arbitrary: c)
  case Nil
  then show ?case by simp
next
  case (Cons x xs)
  show ?case
  proof (cases "y = x")
    case True
    show ?thesis
      using foldl_best_ge_start[of x xs] foldl_best_ge_start[of c xs] True
      by (auto simp: not_less elim: order_trans)
  next
    case False
    with Cons.prems have "y \<in> set xs" by simp
    then show ?thesis using Cons.IH by simp
  qed
qed

lemma max_by_position_Max:
  assumes "xs \<noteq> []"
  shows "\<exists>m. max_by_position xs = Some m \<and> position m = Max (position ` set xs)"
proof -
  from assms obtain c cs where xs: "xs = c # cs" by (cases xs) auto
  let ?m = "foldl (\<lambda>best x. if position best < position x then x else best) c cs"
  have "Max (position ` set xs) = position ?m"
  proof (rule Max_eqI)
    show "finite (position ` set xs)" by simp
    show "position ?m \<in> position ` set xs"
      using foldl_best_mem[of c cs] xs by blast
    fix y assume "y \<in> position ` set xs"
    then obtain z where z: "z \<in> set (c # cs)" "y = position z" using xs by auto
    then show "y \<le> position ?m"
      using foldl_best_ge_start[of c cs] foldl_best_ge_all[of z cs c] by auto
  qed
  with xs show ?thesis by simp
qed


section \<open>Frame lemmas for the state updates\<close>

lemma set_road_fields [simp]:
  "road1 (set_road r rd s) = (if r = 1 then rd else road1 s)"
  "road2 (set_road r rd s) = (if r = 1 then road2 s else rd)"
  "is_running (set_road r rd s) = is_running s"
  "case_type (set_road r rd s) = case_type s"
  "case_var (set_road r rd s) = case_var s"
  "cars_entry (set_road r rd s) = cars_entry s"
  "k_entry (set_road r rd s) = k_entry s"
  "car_pool (set_road r rd s) = car_pool s"
  "light_pool (set_road r rd s) = light_pool s"
  "display_pool (set_road r rd s) = display_pool s"
  "gui (set_road r rd s) = gui s"
  by (simp_all add: set_road_def)

lemma set_thread_fields [simp]:
  "road1 (set_thread i t s) = road1 s"
  "road2 (set_thread i t s) = road2 s"
  "is_running (set_thread i t s) = is_running s"
  "case_type (set_thread i t s) = case_type s"
  "case_var (set_thread i t s) = case_var s"
  "cars_entry (set_thread i t s) = cars_entry s"
  "k_entry (set_thread i t s) = k_entry s"
  "car_pool (set_thread i t s) = (car_pool s)[i := t]"
  "light_pool (set_thread i t s) = light_pool s"
  "display_pool (set_thread i t s) = display_pool s"
  "gui (set_thread i t s) = gui s"
  by (simp_all add: set_thread_def)

lemma set_light_pc_fields [simp]:
  "road1 (set_light_pc j p s) = road1 s"
  "road2 (set_light_pc j p s) = road2 s"
  "is_running (set_light_pc j p s) = is_running s"
  "case_type (set_light_pc j p s) = case_type s"
  "case_var (set_light_pc j p s) = case_var s"
  "cars_entry (set_light_pc j p s) = cars_entry s"
  "k_entry (set_light_pc j p s) = k_entry s"
  "car_pool (set_light_pc j p s) = car_pool s"
  "light_pool (set_light_pc j p s) = (light_pool s)[j := p]"
  "display_pool (set_light_pc j p s) = display_pool s"
  "gui (set_light_pc j p s) = gui s"
  by (simp_all add: set_light_pc_def)

lemma set_light_fields [simp]:
  "cars (road1 (set_light r l s)) = cars (road1 s)"
  "cars (road2 (set_light r l s)) = cars (road2 s)"
  "light_state (road1 (set_light r l s)) = (if r = 1 then l else light_state (road1 s))"
  "light_state (road2 (set_light r l s)) = (if r = 1 then light_state (road2 s) else l)"
  "is_running (set_light r l s) = is_running s"
  "case_type (set_light r l s) = case_type s"
  "case_var (set_light r l s) = case_var s"
  "cars_entry (set_light r l s) = cars_entry s"
  "k_entry (set_light r l s) = k_entry s"
  "car_pool (set_light r l s) = notify_all r (car_pool s)"
  "light_pool (set_light r l s) = light_pool s"
  "display_pool (set_light r l s) = display_pool s"
  "gui (set_light r l s) = gui s"
  "locked (road1 (set_light r l s)) = locked (road1 s)"
  "locked (road2 (set_light r l s)) = locked (road2 s)"
  by (simp_all add: set_light_def road_of_def)

lemma stop_simulation_fields [simp]:
  "road1 (stop_simulation s) = (road1 s)\<lparr>cars := [], light_state := RED\<rparr>"
  "road2 (stop_simulation s) = (road2 s)\<lparr>cars := [], light_state := RED\<rparr>"
  "gui (stop_simulation s) = G_joining"
  "is_running (stop_simulation s) = False"
  "case_type (stop_simulation s) = case_type s"
  "case_var (stop_simulation s) = case_var s"
  "cars_entry (stop_simulation s) = cars_entry s"
  "k_entry (stop_simulation s) = k_entry s"
  "car_pool (stop_simulation s) = notify_all 2 (notify_all 1 (car_pool s))"
  "light_pool (stop_simulation s) = light_pool s"
  "display_pool (stop_simulation s) = display_pool s"
  by (simp_all add: stop_simulation_def)

section \<open>What one step of a thread does\<close>

lemma car_process_arrive:
  "pc (car_pool s ! i) = At_arrive \<Longrightarrow> car_process s i now =
     (if locked (road_of s (road_num (car (car_pool s ! i)))) then None
      else Some (set_road (road_num (car (car_pool s ! i)))
              ((road_of s (road_num (car (car_pool s ! i))))
                 \<lparr>cars := cars (road_of s (road_num (car (car_pool s ! i)))) @ [i]\<rparr>)
              (set_thread i ((car_pool s ! i)\<lparr>pc := At_loop\<rparr>) s)))"
  by (simp add: car_process_def Let_def)

lemma car_process_loop:
  "pc (car_pool s ! i) = At_loop \<Longrightarrow> car_process s i now =
     Some (set_thread i ((car_pool s ! i)
        \<lparr>pc := (if is_running s \<and> state (car (car_pool s ! i)) \<noteq> Exited then At_lock else At_after)\<rparr>) s)"
  by (simp add: car_process_def Let_def)

lemma car_process_lock:
  "pc (car_pool s ! i) = At_lock \<Longrightarrow> car_process s i now =
     (if (light_state (road_of s (road_num (car (car_pool s ! i)))) = GREEN \<or>
          light_state (road_of s (road_num (car (car_pool s ! i)))) = YELLOW) \<and>
         can_cross s (road_of s (road_num (car (car_pool s ! i)))) (car (car_pool s ! i)) = Inr True
      then Some (set_thread i
              ((car_pool s ! i)\<lparr>car := (car (car_pool s ! i))\<lparr>state := Crossing\<rparr>, pc := At_after\<rparr>) s)
      else Some (set_thread i ((car_pool s ! i)
         \<lparr>pc := (if (light_state (road_of s (road_num (car (car_pool s ! i)))) = GREEN \<or>
                      light_state (road_of s (road_num (car (car_pool s ! i)))) = YELLOW) \<and>
                     (\<exists>e. can_cross s (road_of s (road_num (car (car_pool s ! i))))
                            (car (car_pool s ! i)) = Inl e)
                  then At_raised else At_wait)\<rparr>) s))"
  by (simp add: car_process_def Let_def split: sum.splits)

lemma car_process_wait:
  "pc (car_pool s ! i) = At_wait \<Longrightarrow> car_process s i now = None"
  by (simp add: car_process_def Let_def)

lemma car_process_woken:
  "pc (car_pool s ! i) = At_woken \<Longrightarrow> car_process s i now =
     Some (set_thread i
              ((car_pool s ! i)
                 \<lparr>car := (car (car_pool s ! i))
                          \<lparr>waiting_time := waiting_time (car (car_pool s ! i)) + 1 / 10\<rparr>,
                  pc := (if MAX_WAITING_TIME < waiting_time (car (car_pool s ! i)) + 1 / 10
                         then At_after else At_loop)\<rparr>) s)"
  by (simp add: car_process_def Let_def)

lemma car_process_after:
  "pc (car_pool s ! i) = At_after \<Longrightarrow> car_process s i now =
     Some (set_thread i
            ((car_pool s ! i)
               \<lparr>pc := (if state (car (car_pool s ! i)) = Crossing then At_cross else At_done)\<rparr>) s)"
  by (simp add: car_process_def Let_def)

lemma car_process_cross:
  "pc (car_pool s ! i) = At_cross \<Longrightarrow> car_process s i now =
     (if now < CAR_CROSSING_TIME then
        Some (set_thread i
              ((car_pool s ! i)
                 \<lparr>car := (car (car_pool s ! i))
                          \<lparr>position := position (car (car_pool s ! i)) + 1 / 10\<rparr>\<rparr>) s)
      else Some (set_thread i ((car_pool s ! i)\<lparr>pc := At_exit\<rparr>) s))"
  by (simp add: car_process_def Let_def)

lemma car_process_exit:
  "pc (car_pool s ! i) = At_exit \<Longrightarrow> car_process s i now =
     (if locked (road_of s (road_num (car (car_pool s ! i)))) then None
      else Some (set_road (road_num (car (car_pool s ! i)))
              ((road_of s (road_num (car (car_pool s ! i))))\<lparr>locked := True\<rparr>)
              (set_thread i
                 ((car_pool s ! i)
                    \<lparr>pc := (if car_in s (car (car_pool s ! i))
                                 (cars (road_of s (road_num (car (car_pool s ! i)))))
                            then At_remove else At_mark)\<rparr>) s)))"
  by (simp add: car_process_def Let_def)

lemma car_process_remove:
  "pc (car_pool s ! i) = At_remove \<Longrightarrow> car_process s i now =
     (if car_in s (car (car_pool s ! i)) (cars (road_of s (road_num (car (car_pool s ! i)))))
      then Some (set_road (road_num (car (car_pool s ! i)))
              ((road_of s (road_num (car (car_pool s ! i))))
                 \<lparr>cars := remove_first (\<lambda>j. car (car_pool s ! j) = car (car_pool s ! i))
                           (cars (road_of s (road_num (car (car_pool s ! i)))))\<rparr>)
              (set_thread i ((car_pool s ! i)\<lparr>pc := At_mark\<rparr>) s))
      else Some (set_road (road_num (car (car_pool s ! i)))
              ((road_of s (road_num (car (car_pool s ! i))))\<lparr>locked := False\<rparr>)
              (set_thread i ((car_pool s ! i)\<lparr>pc := At_raised\<rparr>) s)))"
  by (simp add: car_process_def remove_car_def Let_def)

lemma car_process_mark:
  "pc (car_pool s ! i) = At_mark \<Longrightarrow> car_process s i now =
     Some (set_road (road_num (car (car_pool s ! i)))
              ((road_of s (road_num (car (car_pool s ! i))))\<lparr>locked := False\<rparr>)
              (set_thread i
                 ((car_pool s ! i)\<lparr>car := (car (car_pool s ! i))\<lparr>state := Exited\<rparr>, pc := At_done\<rparr>)
                 s))"
  by (simp add: car_process_def Let_def)

lemma car_process_ended:
  "pc (car_pool s ! i) = At_done \<or> pc (car_pool s ! i) = At_raised \<Longrightarrow> car_process s i now = None"
  by (auto simp add: car_process_def Let_def)

text \<open>The steps of a car thread, by what they write: the append, a step that
  only takes or releases \<^verbatim>\<open>road.lock\<close>, the removal, the assignment of
  \<^verbatim>\<open>"exited"\<close>, the admission, the return from \<^verbatim>\<open>wait()\<close>, a round of the
  crossing loop, and the steps that only move the program point.\<close>

lemma car_process_cases
  [consumes 1, case_names arrive lock_only remove mark admit woken cross pc_only]:
  assumes step: "car_process s i now = Some s'"
  obtains
    (arrive) "pc (car_pool s ! i) = At_arrive"
      "s' = set_road (road_num (car (car_pool s ! i)))
              ((road_of s (road_num (car (car_pool s ! i))))
                 \<lparr>cars := cars (road_of s (road_num (car (car_pool s ! i)))) @ [i]\<rparr>)
              (set_thread i ((car_pool s ! i)\<lparr>pc := At_loop\<rparr>) s)"
  | (lock_only) p b where
      "s' = set_road (road_num (car (car_pool s ! i)))
              ((road_of s (road_num (car (car_pool s ! i))))\<lparr>locked := b\<rparr>)
              (set_thread i ((car_pool s ! i)\<lparr>pc := p\<rparr>) s)"
      "pc (car_pool s ! i) = At_exit \<and> (p = At_remove \<or> p = At_mark)
       \<or> pc (car_pool s ! i) = At_remove \<and> p = At_raised"
  | (remove) "pc (car_pool s ! i) = At_remove"
      "s' = set_road (road_num (car (car_pool s ! i)))
              ((road_of s (road_num (car (car_pool s ! i))))
                 \<lparr>cars := remove_first (\<lambda>j. car (car_pool s ! j) = car (car_pool s ! i))
                           (cars (road_of s (road_num (car (car_pool s ! i)))))\<rparr>)
              (set_thread i ((car_pool s ! i)\<lparr>pc := At_mark\<rparr>) s)"
  | (mark) "pc (car_pool s ! i) = At_mark"
      "s' = set_road (road_num (car (car_pool s ! i)))
              ((road_of s (road_num (car (car_pool s ! i))))\<lparr>locked := False\<rparr>)
              (set_thread i
                 ((car_pool s ! i)\<lparr>car := (car (car_pool s ! i))\<lparr>state := Exited\<rparr>, pc := At_done\<rparr>)
                 s)"
  | (admit) "pc (car_pool s ! i) = At_lock"
      "light_state (road_of s (road_num (car (car_pool s ! i)))) = GREEN \<or>
       light_state (road_of s (road_num (car (car_pool s ! i)))) = YELLOW"
      "can_cross s (road_of s (road_num (car (car_pool s ! i)))) (car (car_pool s ! i)) = Inr True"
      "s' = set_thread i
              ((car_pool s ! i)\<lparr>car := (car (car_pool s ! i))\<lparr>state := Crossing\<rparr>, pc := At_after\<rparr>) s"
  | (woken) "pc (car_pool s ! i) = At_woken"
      "s' = set_thread i
              ((car_pool s ! i)
                 \<lparr>car := (car (car_pool s ! i))
                          \<lparr>waiting_time := waiting_time (car (car_pool s ! i)) + 1 / 10\<rparr>,
                  pc := (if MAX_WAITING_TIME < waiting_time (car (car_pool s ! i)) + 1 / 10
                         then At_after else At_loop)\<rparr>) s"
  | (cross) "pc (car_pool s ! i) = At_cross" "now < CAR_CROSSING_TIME"
      "s' = set_thread i
              ((car_pool s ! i)
                 \<lparr>car := (car (car_pool s ! i))
                          \<lparr>position := position (car (car_pool s ! i)) + 1 / 10\<rparr>\<rparr>) s"
  | (pc_only) p where "s' = set_thread i ((car_pool s ! i)\<lparr>pc := p\<rparr>) s"
      "pc (car_pool s ! i) = At_loop \<and> p = At_lock \<and> is_running s
       \<or> pc (car_pool s ! i) = At_loop \<and> p = At_after
       \<or> pc (car_pool s ! i) = At_lock \<and> (p = At_raised \<or> p = At_wait)
       \<or> pc (car_pool s ! i) = At_after \<and> p = At_cross \<and> state (car (car_pool s ! i)) = Crossing
       \<or> pc (car_pool s ! i) = At_after \<and> p = At_done \<and> state (car (car_pool s ! i)) \<noteq> Crossing
       \<or> pc (car_pool s ! i) = At_cross \<and> p = At_exit"
proof (cases "pc (car_pool s ! i)")
  case At_arrive
  with step arrive show ?thesis by (simp add: car_process_arrive split: if_splits)
next
  case At_loop
  with step have "s' = set_thread i ((car_pool s ! i)
        \<lparr>pc := (if is_running s \<and> state (car (car_pool s ! i)) \<noteq> Exited then At_lock else At_after)\<rparr>) s"
    by (simp add: car_process_loop)
  with At_loop show ?thesis by (intro pc_only) (assumption, simp)
next
  case At_lock
  show ?thesis
  proof (cases "(light_state (road_of s (road_num (car (car_pool s ! i)))) = GREEN \<or>
          light_state (road_of s (road_num (car (car_pool s ! i)))) = YELLOW) \<and>
         can_cross s (road_of s (road_num (car (car_pool s ! i)))) (car (car_pool s ! i)) = Inr True")
    case True
    with step At_lock show ?thesis by (intro admit) (simp_all add: car_process_lock)
  next
    case False
    with step At_lock have "\<exists>p. s' = set_thread i ((car_pool s ! i)\<lparr>pc := p\<rparr>) s \<and>
      (p = At_raised \<or> p = At_wait)"
      by (auto simp add: car_process_lock split: if_splits)
    then obtain p where "s' = set_thread i ((car_pool s ! i)\<lparr>pc := p\<rparr>) s"
      "p = At_raised \<or> p = At_wait" by blast
    with At_lock show ?thesis by (intro pc_only) (assumption, simp)
  qed
next
  case At_wait
  with step show ?thesis by (simp add: car_process_wait)
next
  case At_woken
  with step woken show ?thesis by (simp add: car_process_woken)
next
  case At_after
  with step have "s' = set_thread i ((car_pool s ! i)
       \<lparr>pc := (if state (car (car_pool s ! i)) = Crossing then At_cross else At_done)\<rparr>) s"
    by (simp add: car_process_after)
  with At_after show ?thesis by (intro pc_only) (assumption, simp)
next
  case At_cross
  show ?thesis
  proof (cases "now < CAR_CROSSING_TIME")
    case True
    with step At_cross show ?thesis
      by (intro cross) (simp_all add: car_process_cross)
  next
    case False
    with step At_cross have "s' = set_thread i ((car_pool s ! i)\<lparr>pc := At_exit\<rparr>) s"
      by (simp add: car_process_cross)
    with At_cross show ?thesis by (intro pc_only) (assumption, simp)
  qed
next
  case At_exit
  with step have "s' = set_road (road_num (car (car_pool s ! i)))
              ((road_of s (road_num (car (car_pool s ! i))))\<lparr>locked := True\<rparr>)
              (set_thread i
                 ((car_pool s ! i)
                    \<lparr>pc := (if car_in s (car (car_pool s ! i))
                                 (cars (road_of s (road_num (car (car_pool s ! i)))))
                            then At_remove else At_mark)\<rparr>) s)"
    by (simp add: car_process_exit split: if_splits)
  with At_exit show ?thesis by (intro lock_only) (assumption, simp)
next
  case At_remove
  show ?thesis
  proof (cases "car_in s (car (car_pool s ! i))
                  (cars (road_of s (road_num (car (car_pool s ! i)))))")
    case True
    with step At_remove show ?thesis by (intro remove) (simp_all add: car_process_remove)
  next
    case False
    with step At_remove have "s' = set_road (road_num (car (car_pool s ! i)))
              ((road_of s (road_num (car (car_pool s ! i))))\<lparr>locked := False\<rparr>)
              (set_thread i ((car_pool s ! i)\<lparr>pc := At_raised\<rparr>) s)"
      by (simp add: car_process_remove)
    with At_remove show ?thesis by (intro lock_only) (assumption, simp)
  qed
next
  case At_mark
  with step mark show ?thesis by (simp add: car_process_mark)
next
  case At_done
  with step show ?thesis by (simp add: car_process_ended)
next
  case At_raised
  with step show ?thesis by (simp add: car_process_ended)
qed

lemma traffic_light_process_cases [consumes 1, case_names pc_only light_write]:
  assumes step: "traffic_light_process s j = Some s'"
  obtains
    (pc_only) p where "s' = set_light_pc j p s"
      "light_pool s ! j = L_while \<and> (p = L_for 1 \<and> is_running s \<or> p = L_done \<and> \<not> is_running s)
       \<or> (\<exists>r. light_pool s ! j = L_for r \<and> (p = L_while \<and> \<not> is_running s \<or> p = L_green r \<and> is_running s))"
  | (light_write) r l p where "s' = set_light_pc j p (set_light r l s)"
      "light_pool s ! j = L_green r \<and> l = GREEN \<and> p = L_yellow r
       \<or> light_pool s ! j = L_yellow r \<and> l = YELLOW \<and> p = L_red r
       \<or> light_pool s ! j = L_red r \<and> l = RED \<and> p = (if r = 1 then L_for 2 else L_while)"
proof (cases "light_pool s ! j")
  case L_while
  with step have "s' = set_light_pc j (if is_running s then L_for 1 else L_done) s"
    by (simp add: traffic_light_process_def)
  with L_while show ?thesis by (intro pc_only) (assumption, simp)
next
  case (L_for r)
  with step have "s' = set_light_pc j (if \<not> is_running s then L_while else L_green r) s"
    by (simp add: traffic_light_process_def)
  with L_for show ?thesis by (intro pc_only) (assumption, simp)
next
  case (L_green r)
  with step have "s' = set_light_pc j (L_yellow r) (set_light r GREEN s)"
    by (simp add: traffic_light_process_def)
  with L_green show ?thesis by (intro light_write) (assumption, simp)
next
  case (L_yellow r)
  with step have "s' = set_light_pc j (L_red r) (set_light r YELLOW s)"
    by (simp add: traffic_light_process_def)
  with L_yellow show ?thesis by (intro light_write) (assumption, simp)
next
  case (L_red r)
  with step have "s' = set_light_pc j (if r = 1 then L_for 2 else L_while) (set_light r RED s)"
    by (simp add: traffic_light_process_def)
  with L_red show ?thesis by (intro light_write) (assumption, simp)
next
  case L_done
  with step show ?thesis by (simp add: traffic_light_process_def)
qed

lemma update_display_cases:
  assumes "update_display s j = Some s'"
  shows "s' = s \<or> s' = s\<lparr>display_pool := (display_pool s)[j := D_done]\<rparr>"
  using assms by (auto simp: update_display_def split: display_pc.splits if_splits)

lemma start_simulation_failed:
  "cars_entry s = None \<Longrightarrow>
   start_simulation s rs = (Some ValueError, s\<lparr>is_running := True, case_type := case_var s\<rparr>)"
  by (simp add: start_simulation_def)

lemma start_simulation_ok_fields:
  assumes "cars_entry s = Some n"
  shows "fst (start_simulation s rs) = None"
    "road1 (snd (start_simulation s rs)) = (road1 s)\<lparr>cars := [], light_state := RED\<rparr>"
    "road2 (snd (start_simulation s rs)) = (road2 s)\<lparr>cars := [], light_state := RED\<rparr>"
    "gui (snd (start_simulation s rs)) = gui s"
    "is_running (snd (start_simulation s rs)) = True"
    "case_type (snd (start_simulation s rs)) = case_var s"
    "case_var (snd (start_simulation s rs)) = case_var s"
    "cars_entry (snd (start_simulation s rs)) = cars_entry s"
    "k_entry (snd (start_simulation s rs)) = k_entry s"
    "car_pool (snd (start_simulation s rs)) =
       notify_all 2 (notify_all 1 (car_pool s)) @ spawned_cars n rs"
    "light_pool (snd (start_simulation s rs)) = light_pool s @ [L_while]"
    "display_pool (snd (start_simulation s rs)) = display_pool s @ [D_while]"
  using assms by (simp_all add: start_simulation_def Let_def spawned_cars_def)

lemma step_Toggle_cases [consumes 1, case_names stop failed started]:
  assumes "step s (Toggle rs) = Some s'"
  obtains
    (stop) "is_running s" "gui s = G_idle" "s' = stop_simulation s"
  | (failed) "\<not> is_running s" "cars_entry s = None"
      "s' = s\<lparr>is_running := True, case_type := case_var s\<rparr>"
  | (started) n where "\<not> is_running s" "cars_entry s = Some n" "list_all (\<lambda>r. r = 1 \<or> r = 2) rs"
      "s' = snd (start_simulation s rs)"
proof (cases "is_running s")
  case True
  with assms stop show ?thesis
    by (simp add: step_def toggle_simulation_def split: if_splits)
next
  case False
  show ?thesis
  proof (cases "cars_entry s")
    case None
    with assms False failed show ?thesis
      by (simp add: step_def toggle_simulation_def start_simulation_failed split: if_splits)
  next
    case (Some n)
    with assms False show ?thesis
      by (intro started[of n]) (simp_all add: step_def toggle_simulation_def draws_ok_def split: if_splits)
  qed
qed


lemma exec_invariant:
  assumes pres: "\<And>s ev s'. I s \<Longrightarrow> P ev \<Longrightarrow> step s ev = Some s' \<Longrightarrow> I s'"
  shows "I s \<Longrightarrow> list_all P evs \<Longrightarrow> exec s evs = Some s' \<Longrightarrow> I s'"
proof (induction evs arbitrary: s)
  case Nil
  then show ?case by simp
next
  case (Cons ev evs)
  from Cons.prems(3) obtain s1 where s1: "step s ev = Some s1" "exec s1 evs = Some s'"
    by (auto split: option.splits)
  from Cons.prems have "P ev" "list_all P evs" by simp_all
  with pres[OF Cons.prems(1) _ s1(1)] have "I s1" by simp
  with Cons.IH \<open>list_all P evs\<close> s1(2) show ?case by blast
qed



lemma ok_refs_Nil [simp]: "ok_refs pool r []"
  by (simp add: ok_refs_def)




lemma length_notify_all [simp]: "length (notify_all r pool) = length pool"
  by (simp add: notify_all_def)

lemma car_notify_all [simp]: "i < length pool \<Longrightarrow> car (notify_all r pool ! i) = car (pool ! i)"
  by (simp add: notify_all_def)

lemma pc_notify_all:
  "i < length pool \<Longrightarrow> pc (notify_all r pool ! i) =
     (if road_num (car (pool ! i)) = r \<and> pc (pool ! i) = At_wait then At_woken else pc (pool ! i))"
  by (simp add: notify_all_def)

lemma roads_ok_notify_all [simp]: "roads_ok (notify_all r pool) = roads_ok pool"
  by (induction pool) (auto simp: notify_all_def roads_ok_def)

lemma ok_refs_notify_all [simp]: "ok_refs (notify_all r' pool) r xs = ok_refs pool r xs"
  by (auto simp: ok_refs_def pc_notify_all split: if_splits)




section \<open>Well-formed road lists\<close>


lemma ok_refs_append_pool: "ok_refs pool r xs \<Longrightarrow> ok_refs (pool @ new) r xs"
  by (auto simp: ok_refs_def nth_append)






section \<open>Thread-local facts\<close>

lemma thread_ok_pc_only:
  assumes "thread_ok t"
    "pc t = At_loop \<and> (p = At_lock \<or> p = At_after)
     \<or> pc t = At_lock \<and> (p = At_raised \<or> p = At_wait)
     \<or> pc t = At_wait \<and> p = At_woken
     \<or> pc t = At_arrive \<and> p = At_loop
     \<or> pc t = At_after \<and> p = At_cross \<and> state (car t) = Crossing
     \<or> pc t = At_after \<and> p = At_done \<and> state (car t) \<noteq> Crossing
     \<or> pc t = At_cross \<and> p = At_exit
     \<or> pc t = At_exit \<and> (p = At_remove \<or> p = At_mark)
     \<or> pc t = At_remove \<and> (p = At_mark \<or> p = At_raised)"
  shows "thread_ok (t\<lparr>pc := p\<rparr>)"
  using assms by (auto simp: thread_ok_def)

lemma thread_ok_admit:
  "thread_ok t \<Longrightarrow> pc t = At_lock \<Longrightarrow> thread_ok (t\<lparr>car := (car t)\<lparr>state := Crossing\<rparr>, pc := At_after\<rparr>)"
  by (auto simp: thread_ok_def)

lemma thread_ok_woken:
  "thread_ok t \<Longrightarrow> pc t = At_woken \<Longrightarrow> p = At_after \<or> p = At_loop \<Longrightarrow>
   thread_ok (t\<lparr>car := (car t)\<lparr>waiting_time := w\<rparr>, pc := p\<rparr>)"
  by (auto simp: thread_ok_def)

lemma thread_ok_cross:
  "thread_ok t \<Longrightarrow> pc t = At_cross \<Longrightarrow>
   thread_ok (t\<lparr>car := (car t)\<lparr>position := position (car t) + 1 / 10\<rparr>\<rparr>)"
  by (auto simp: thread_ok_def)

lemma thread_ok_mark:
  "thread_ok t \<Longrightarrow> pc t = At_mark \<Longrightarrow> thread_ok (t\<lparr>car := (car t)\<lparr>state := Exited\<rparr>, pc := At_done\<rparr>)"
  by (auto simp: thread_ok_def)

lemma thread_ok_new: "thread_ok (new_car_thread i r)"
  by (simp add: thread_ok_def new_car_thread_def)

lemma threads_ok_nth: "threads_ok pool \<Longrightarrow> i < length pool \<Longrightarrow> thread_ok (pool ! i)"
  by (simp add: threads_ok_def)

lemma threads_ok_update:
  "threads_ok pool \<Longrightarrow> thread_ok t' \<Longrightarrow> threads_ok (pool[i := t'])"
  unfolding threads_ok_def using set_update_subset_insert[of pool i t'] by auto

lemma threads_ok_append: "threads_ok (xs @ ys) = (threads_ok xs \<and> threads_ok ys)"
  by (auto simp: threads_ok_def)

lemma threads_ok_notify [simp]: "threads_ok pool \<Longrightarrow> threads_ok (notify_all r pool)"
  by (auto simp: threads_ok_def notify_all_def thread_ok_def)

lemma threads_ok_spawned: "threads_ok (spawned_cars n rs)"
  by (auto simp: threads_ok_def spawned_cars_def thread_ok_new)

lemma threads_ok_car_process:
  assumes ok: "threads_ok (car_pool s)" and i: "i < length (car_pool s)"
    and step: "car_process s i now = Some s'"
  shows "threads_ok (car_pool s')"
proof -
  have t: "thread_ok (car_pool s ! i)" using ok i by (rule threads_ok_nth)
  from step show ?thesis
  proof (cases rule: car_process_cases)
    case arrive
    with t ok show ?thesis
      using thread_ok_pc_only[OF t, of At_loop] by (simp add: threads_ok_update)
  next
    case (lock_only p b)
    with t have "thread_ok ((car_pool s ! i)\<lparr>pc := p\<rparr>)" by (intro thread_ok_pc_only) auto
    with lock_only ok show ?thesis by (simp add: threads_ok_update)
  next
    case remove
    with t ok show ?thesis
      using thread_ok_pc_only[OF t, of At_mark] by (simp add: threads_ok_update)
  next
    case mark
    with t ok show ?thesis by (simp add: threads_ok_update thread_ok_mark)
  next
    case admit
    with t ok show ?thesis by (simp add: threads_ok_update thread_ok_admit)
  next
    case woken
    with t ok show ?thesis by (simp add: threads_ok_update thread_ok_woken)
  next
    case cross
    with t ok show ?thesis by (simp add: threads_ok_update thread_ok_cross)
  next
    case (pc_only p)
    with t have "thread_ok ((car_pool s ! i)\<lparr>pc := p\<rparr>)" by (intro thread_ok_pc_only) auto
    with pc_only ok show ?thesis by (simp add: threads_ok_update)
  qed
qed

lemma threads_ok_step:
  assumes "threads_ok (car_pool s)" "step s ev = Some s'"
  shows "threads_ok (car_pool s')"
proof (cases ev)
  case (Toggle rs)
  with assms(2) have "step s (Toggle rs) = Some s'" by simp
  then show ?thesis
  proof (cases rule: step_Toggle_cases)
    case stop
    with assms(1) show ?thesis by simp
  next
    case failed
    with assms(1) show ?thesis by simp
  next
    case (started n)
    with assms(1) show ?thesis
      by (simp add: start_simulation_ok_fields threads_ok_append threads_ok_spawned)
  qed
next
  case (EditCase v)
  with assms show ?thesis by (auto simp: step_def split: if_splits)
next
  case (EditCars e)
  with assms show ?thesis by (auto simp: step_def split: if_splits)
next
  case (EditK e)
  with assms show ?thesis by (auto simp: step_def split: if_splits)
next
  case (CarStep i now)
  with assms show ?thesis using threads_ok_car_process by (auto simp: step_def split: if_splits)
next
  case (LightStep j)
  with assms(2) have "traffic_light_process s j = Some s'" by (simp add: step_def split: if_splits)
  then show ?thesis
  proof (cases rule: traffic_light_process_cases)
    case (pc_only p)
    with assms(1) show ?thesis by simp
  next
    case (light_write r l p)
    with assms(1) show ?thesis by simp
  qed
next
  case (DisplayStep j)
  with assms have "s' = s \<or> s' = s\<lparr>display_pool := (display_pool s)[j := D_done]\<rparr>"
    using update_display_cases by (auto simp: step_def split: if_splits)
  with assms(1) show ?thesis by auto
next
  case JoinReturn
  with assms show ?thesis by (auto simp: step_def split: if_splits)
qed

lemma threads_ok_init: "threads_ok (car_pool init_sim)"
  by (simp add: threads_ok_def init_sim_def)

section \<open>Counting the crossing cars of a road\<close>

lemma crossing_refs_Nil [simp]: "crossing_refs pool [] = []"
  by (simp add: crossing_refs_def)















section \<open>Steps leave the flags and inputs alone\<close>

lemma car_process_frame:
  assumes "car_process s i now = Some s'"
  shows "is_running s' = is_running s" "case_type s' = case_type s" "k_entry s' = k_entry s"
    "case_var s' = case_var s" "cars_entry s' = cars_entry s"
    "light_pool s' = light_pool s" "display_pool s' = display_pool s"
    "light_state (road1 s') = light_state (road1 s)" "light_state (road2 s') = light_state (road2 s)"
    "length (car_pool s') = length (car_pool s)" "gui s' = gui s"
  using assms by (cases rule: car_process_cases; simp add: road_of_def)+

lemma traffic_light_process_frame:
  assumes "traffic_light_process s j = Some s'"
  shows "is_running s' = is_running s" "case_type s' = case_type s" "k_entry s' = k_entry s"
    "case_var s' = case_var s" "cars_entry s' = cars_entry s"
    "display_pool s' = display_pool s"
    "cars (road1 s') = cars (road1 s)" "cars (road2 s') = cars (road2 s)"
    "length (car_pool s') = length (car_pool s)" "gui s' = gui s"
  using assms by (cases rule: traffic_light_process_cases; simp)+

section \<open>Listed cars while the flag is off\<close>

lemma idle_refs_Nil [simp]: "idle_refs pool []"
  by (simp add: idle_refs_def)







section \<open>Mutual exclusion and the capacity bound\<close>








section \<open>Evaluating concrete traces\<close>

lemmas eval_defs = step_def toggle_simulation_def start_simulation_def stop_simulation_def
  draws_ok_def spawned_cars_def new_car_thread_def car_process_def traffic_light_process_def
  update_display_def set_thread_def set_road_def set_light_def set_light_pc_def road_of_def
  notify_all_def can_cross_def road_cars_def remove_car_def car_in_def init_sim_def Let_def
  CAR_CROSSING_TIME_def MAX_WAITING_TIME_def SAFE_DISTANCE_def CANVAS_WIDTH_def upt_conv_Cons

section \<open>The lights under one controller\<close>

lemma lights_inv_alt:
  "lights_inv s =
     ((light_pool s = [] \<longrightarrow> light_state (road1 s) = RED \<and> light_state (road2 s) = RED) \<and>
      (\<forall>p. light_pool s = [p] \<longrightarrow> served p (light_state (road1 s)) (light_state (road2 s))))"
  by (auto simp: lights_inv_def split: list.splits)

lemma served_one_red: "served p l1 l2 \<Longrightarrow> l1 = RED \<or> l2 = RED"
  by (auto simp: served_def split: light_pc.splits)

lemma served_reset: "served p l1 l2 \<Longrightarrow> served p RED RED"
  by (auto simp: served_def split: light_pc.splits)

lemma lights_inv_step:
  assumes inv: "lights_inv s" and step: "step s ev = Some s'"
  shows "lights_inv s'"
proof (cases ev)
  case (Toggle rs)
  with step have "step s (Toggle rs) = Some s'" by simp
  then show ?thesis
  proof (cases rule: step_Toggle_cases)
    case stop
    with inv show ?thesis
      by (auto simp: lights_inv_alt served_reset)
  next
    case failed
    with inv show ?thesis by (simp add: lights_inv_alt)
  next
    case (started n)
    with inv show ?thesis
      by (auto simp: lights_inv_alt start_simulation_ok_fields served_def)
  qed
next
  case (EditCase v)
  with assms show ?thesis by (auto simp: step_def lights_inv_alt split: if_splits)
next
  case (EditCars e)
  with assms show ?thesis by (auto simp: step_def lights_inv_alt split: if_splits)
next
  case (EditK e)
  with assms show ?thesis by (auto simp: step_def lights_inv_alt split: if_splits)
next
  case (CarStep i now)
  with step have cp: "car_process s i now = Some s'" by (simp add: step_def split: if_splits)
  from car_process_frame[OF cp] inv show ?thesis by (simp add: lights_inv_alt)
next
  case (LightStep j)
  with step have j: "j < length (light_pool s)" and lp: "traffic_light_process s j = Some s'"
    by (simp_all add: step_def split: if_splits)
  show ?thesis
  proof (cases "light_pool s")
    case Nil
    with j show ?thesis by simp
  next
    case (Cons p ps)
    show ?thesis
    proof (cases ps)
      case Nil
      with Cons j have pool: "light_pool s = [p]" and j0: "j = 0" by simp_all
      with inv have sv: "served p (light_state (road1 s)) (light_state (road2 s))"
        by (simp add: lights_inv_alt)
      from lp show ?thesis
      proof (cases rule: traffic_light_process_cases)
        case (pc_only q)
        with pool j0 sv show ?thesis by (auto simp: lights_inv_alt served_def)
      next
        case (light_write r l q)
        with pool j0 sv show ?thesis by (auto simp: lights_inv_alt served_def)
      qed
    next
      case (Cons p' ps')
      have "length (light_pool s') = length (light_pool s)"
        using lp by (cases rule: traffic_light_process_cases) simp_all
      with Cons \<open>light_pool s = p # ps\<close> have "length (light_pool s') = Suc (Suc (length ps'))"
        by simp
      then show ?thesis by (auto simp: lights_inv_alt)
    qed
  qed
next
  case (DisplayStep j)
  with step have "s' = s \<or> s' = s\<lparr>display_pool := (display_pool s)[j := D_done]\<rparr>"
    using update_display_cases by (auto simp: step_def split: if_splits)
  with inv show ?thesis by (auto simp: lights_inv_alt)
next
  case JoinReturn
  with assms show ?thesis by (auto simp: step_def lights_inv_alt split: if_splits)
qed

lemma lights_inv_init: "lights_inv init_sim"
  by (simp add: lights_inv_def init_sim_def)

lemma reachable_invariant:
  assumes "I init_sim" "\<And>s ev s'. I s \<Longrightarrow> step s ev = Some s' \<Longrightarrow> I s'" "reachable s"
  shows "I s"
proof -
  from assms(3) obtain evs where "exec init_sim evs = Some s" by (auto simp: reachable_def)
  moreover have "list_all (\<lambda>ev. True) evs" by (simp add: list_all_iff)
  ultimately show ?thesis
    using exec_invariant[of I "\<lambda>ev. True" init_sim evs s] assms(1,2) by blast
qed

lemma single_controller_one_red:
  assumes "reachable s" "length (light_pool s) \<le> 1"
  shows "light_state (road1 s) = RED \<or> light_state (road2 s) = RED"
proof -
  have "lights_inv s"
    using lights_inv_init lights_inv_step assms(1) by (rule reachable_invariant)
  with assms(2) show ?thesis
    by (cases "light_pool s") (auto simp: lights_inv_alt dest: served_one_red)
qed

lemma threads_ok_reachable: "reachable s \<Longrightarrow> threads_ok (car_pool s)"
  using threads_ok_init threads_ok_step by (rule reachable_invariant[of "\<lambda>s. threads_ok (car_pool s)"])

lemma thread_ok_progress:
  assumes "thread_ok t"
  shows "0 \<le> position (car t)" "state (car t) = Waiting \<longrightarrow> position (car t) = 0"
  using assms by (simp_all add: thread_ok_def)

section \<open>A car that gives up waiting\<close>

lemma exec_append:
  "exec s (xs @ ys) = (case exec s xs of None \<Rightarrow> None | Some s' \<Rightarrow> exec s' ys)"
  by (induction xs arbitrary: s) (auto split: option.splits)

lemma starve_prefix_run: "exec init_sim starve_prefix = Some (waiting_state 0)"
  by (simp add: starve_prefix_def waiting_state_def eval_defs)

lemma no_timeout_yet: "n < 300 \<Longrightarrow> \<not> (30 < (of_nat n :: rat) / 10 + 1 / 10)"
proof -
  assume "n < 300"
  then have "(of_nat n :: rat) < 300" by (simp only: of_nat_less_numeral_iff)
  then show ?thesis by simp
qed

lemma wait_round_run:
  assumes "n < 300"
  shows "exec (waiting_state n) wait_round = Some (waiting_state (Suc n))"
  using no_timeout_yet[OF assms]
  by (simp add: wait_round_def waiting_state_def eval_defs add_divide_distrib)

lemma wait_rounds_run:
  "m + n \<le> 300 \<Longrightarrow>
   exec (waiting_state m) (concat (replicate n wait_round)) = Some (waiting_state (m + n))"
proof (induction n arbitrary: m)
  case 0
  then show ?case by simp
next
  case (Suc n)
  then have "m < 300" "Suc m + n \<le> 300" by simp_all
  with Suc.IH[of "Suc m"] show ?case
    by (simp add: exec_append wait_round_run)
qed

lemma last_round_run: "exec (waiting_state 300) last_round = Some abandoned_state"
  by (simp add: last_round_def waiting_state_def abandoned_state_def eval_defs)

text \<open>Whenever the time-out fires, the thread returns after two steps and
  neither road's list has changed.\<close>

lemma timeout_keeps_roads:
  assumes "i < length (car_pool s)" and "pc (car_pool s ! i) = At_woken"
    and "state (car (car_pool s ! i)) = Waiting"
    and "MAX_WAITING_TIME < waiting_time (car (car_pool s ! i)) + 1 / 10"
  shows "\<exists>s'. exec s [CarStep i now, CarStep i now'] = Some s' \<and>
           road1 s' = road1 s \<and> road2 s' = road2 s \<and>
           pc (car_pool s' ! i) = At_done \<and> state (car (car_pool s' ! i)) = Waiting"
  using assms by (simp add: step_def car_process_def Let_def set_thread_def)

section \<open>The claims\<close>

text \<open>
  Claim C2. In BOUNDED(k) mode, that is when \<^verbatim>\<open>case_type\<close> is not 1 and the K input
  reads as the number \<open>k\<close>, \<^verbatim>\<open>can_cross\<close> returns without an exception and its
  result is the one of the specification's algorithm: admit when no car of the
  road is crossing, reject when at least \<open>k\<close> are, admit a candidate of progress 0,
  and otherwise admit iff the candidate's progress minus the greatest progress
  among the crossing cars is at least \<^verbatim>\<open>SAFE_DISTANCE / CANVAS_WIDTH\<close>.
\<close>

theorem can_cross_bounded_refines_spec:
  assumes "case_type s \<noteq> 1" and "k_entry s = Some k"
  shows "can_cross s road c =
         Inr (spec_bounded_admit k (SAFE_DISTANCE / CANVAS_WIDTH) (road_cars s road) c)"
proof -
  let ?cr = "filter (\<lambda>x. state x = Crossing) (road_cars s road)"
  show ?thesis
  proof (cases "?cr = []")
    case True
    with assms show ?thesis by (simp add: can_cross_def spec_bounded_admit_def)
  next
    case False
    then obtain m where m: "max_by_position ?cr = Some m" "position m = Max (position ` set ?cr)"
      using max_by_position_Max by blast
    with assms False show ?thesis
      by (simp add: can_cross_def spec_bounded_admit_def Let_def)
  qed
qed

theorem can_cross_bounded_refines_spec_witness:
  "case_type bounded_demo \<noteq> 1 \<and> k_entry bounded_demo = Some 3 \<and>
   can_cross bounded_demo (road1 bounded_demo) (car (car_pool bounded_demo ! 2)) =
     Inr (spec_bounded_admit 3 (SAFE_DISTANCE / CANVAS_WIDTH)
            (road_cars bounded_demo (road1 bounded_demo)) (car (car_pool bounded_demo ! 2))) \<and>
   can_cross bounded_demo (road1 bounded_demo) (car (car_pool bounded_demo ! 2)) = Inr True"
proof -
  have h: "case_type bounded_demo \<noteq> 1" "k_entry bounded_demo = Some 3"
    by (simp_all add: bounded_demo_def init_sim_def)
  have v: "can_cross bounded_demo (road1 bounded_demo) (car (car_pool bounded_demo ! 2)) = Inr True"
    by (simp add: can_cross_def bounded_demo_def init_sim_def road_cars_def)
  from h v can_cross_bounded_refines_spec[OF h, of "road1 bounded_demo" "car (car_pool bounded_demo ! 2)"]
  show ?thesis by simp
qed










text \<open>
  Claim C6, as amended. In every state reached from the initial one the
  progress of every car is at least 0, and it is 0 while the car is WAITING.
  It is not bounded by 1: the crossing loop adds 0.1 in every round, for as long
  as its clock test holds.
\<close>

theorem progress_range:
  assumes "exec init_sim evs = Some s" and "t \<in> set (car_pool s)"
  shows "0 \<le> position (car t) \<and> (state (car t) = Waiting \<longrightarrow> position (car t) = 0)"
proof -
  from assms(1) have "reachable s" by (auto simp: reachable_def)
  with assms(2) have ok: "thread_ok t"
    using threads_ok_reachable by (auto simp: threads_ok_def)
  from thread_ok_progress[OF ok] show ?thesis by blast
qed

theorem progress_range_witness:
  "exec init_sim run_trace = Some running_state \<and>
   car_pool running_state ! 0 \<in> set (car_pool running_state) \<and>
   state (car (car_pool running_state ! 0)) = Waiting \<and>
   0 \<le> position (car (car_pool running_state ! 0)) \<and>
   position (car (car_pool running_state ! 0)) = 0"
proof -
  have r: "exec init_sim run_trace = Some running_state"
    by (simp add: run_trace_def running_state_def eval_defs)
  have m: "car_pool running_state ! 0 \<in> set (car_pool running_state)"
    "state (car (car_pool running_state ! 0)) = Waiting"
    by (simp_all add: running_state_def)
  from progress_range[OF r m(1)] r m show ?thesis by simp
qed

text \<open>The claim as stated fails: after twelve rounds of the crossing loop the
  car's progress is 1.2.\<close>

theorem progress_exceeds_one:
  "exec init_sim progress_trace = Some progress_state \<and>
   state (car (car_pool progress_state ! 0)) = Crossing \<and>
   position (car (car_pool progress_state ! 0)) = 6 / 5 \<and>
   \<not> position (car (car_pool progress_state ! 0)) < 1"
  by (simp add: progress_trace_def progress_state_def eval_defs)



text \<open>
  Claim C8, as amended. The light of a road is written by the steps of a light
  thread and, besides, by \<^verbatim>\<open>start_simulation\<close> and \<^verbatim>\<open>stop_simulation\<close>, which
  reset both lights to RED. No other step changes a light: not a step of a car
  thread or of the display thread, and not an edit of an input. A click either
  leaves both lights as they are (a start that fails) or leaves both RED.
\<close>

theorem light_state_writers:
  assumes "step s ev = Some s'"
  shows "(\<not> is_light_step ev \<and> \<not> is_toggle ev \<longrightarrow>
            light_state (road1 s') = light_state (road1 s) \<and>
            light_state (road2 s') = light_state (road2 s)) \<and>
         (is_toggle ev \<longrightarrow>
            light_state (road1 s') = RED \<and> light_state (road2 s') = RED \<or>
            light_state (road1 s') = light_state (road1 s) \<and>
            light_state (road2 s') = light_state (road2 s))"
proof (cases ev)
  case (Toggle rs)
  with assms have "step s (Toggle rs) = Some s'" by simp
  then have "light_state (road1 s') = RED \<and> light_state (road2 s') = RED \<or>
            light_state (road1 s') = light_state (road1 s) \<and>
            light_state (road2 s') = light_state (road2 s)"
    by (cases rule: step_Toggle_cases) (simp_all add: start_simulation_ok_fields)
  with Toggle show ?thesis by simp
next
  case (EditCase v)
  with assms show ?thesis by (auto simp: step_def split: if_splits)
next
  case (EditCars e)
  with assms show ?thesis by (auto simp: step_def split: if_splits)
next
  case (EditK e)
  with assms show ?thesis by (auto simp: step_def split: if_splits)
next
  case (CarStep i now)
  with assms have "car_process s i now = Some s'" by (simp add: step_def split: if_splits)
  from car_process_frame[OF this] CarStep show ?thesis by simp
next
  case (LightStep j)
  then show ?thesis by simp
next
  case (DisplayStep j)
  with assms have "s' = s \<or> s' = s\<lparr>display_pool := (display_pool s)[j := D_done]\<rparr>"
    using update_display_cases by (auto simp: step_def split: if_splits)
  with DisplayStep show ?thesis by auto
next
  case JoinReturn
  with assms show ?thesis by (auto simp: step_def split: if_splits)
qed

theorem light_state_writers_witness:
  "\<exists>s'. step green_state (EditK None) = Some s' \<and>
        \<not> is_light_step (EditK None) \<and> \<not> is_toggle (EditK None) \<and>
        light_state (road1 s') = light_state (road1 green_state) \<and>
        light_state (road2 s') = light_state (road2 green_state) \<and>
        light_state (road1 s') = GREEN"
proof -
  have st: "step green_state (EditK None) = Some (green_state\<lparr>k_entry := None\<rparr>)"
    by (simp add: step_def green_state_def)
  from light_state_writers[OF st]
  have "light_state (road1 (green_state\<lparr>k_entry := None\<rparr>)) = light_state (road1 green_state) \<and>
        light_state (road2 (green_state\<lparr>k_entry := None\<rparr>)) = light_state (road2 green_state)"
    by simp
  moreover have "light_state (road1 green_state) = GREEN" by (simp add: green_state_def)
  ultimately show ?thesis using st by simp
qed

text \<open>The claim as stated fails: \<^verbatim>\<open>stop_simulation\<close>, called by a click while road 1
  is green, writes RED to the light of road 1.\<close>

theorem stop_simulation_writes_light:
  "exec init_sim green_trace = Some green_state \<and>
   light_state (road1 green_state) = GREEN \<and>
   step green_state (Toggle []) = Some (stop_simulation green_state) \<and>
   light_state (road1 (stop_simulation green_state)) = RED"
  by (simp add: green_trace_def green_state_def eval_defs)

text \<open>
  Claim C5, as amended. When \<^verbatim>\<open>int\<close> of the car-count input raises
  \<^verbatim>\<open>ValueError\<close>, as it does for an input that is not a number,
  \<^verbatim>\<open>start_simulation\<close> raises it to its caller before it resets a road or starts
  a thread: both roads, the three thread pools and the thread handles are as
  before.
\<close>

theorem start_simulation_bad_car_count:
  assumes "cars_entry s = None"
  shows "fst (start_simulation s rs) = Some ValueError \<and>
         road1 (snd (start_simulation s rs)) = road1 s \<and>
         road2 (snd (start_simulation s rs)) = road2 s \<and>
         car_pool (snd (start_simulation s rs)) = car_pool s \<and>
         light_pool (snd (start_simulation s rs)) = light_pool s \<and>
         display_pool (snd (start_simulation s rs)) = display_pool s \<and>
         car_threads (snd (start_simulation s rs)) = car_threads s \<and>
         light_thread (snd (start_simulation s rs)) = light_thread s \<and>
         display_thread (snd (start_simulation s rs)) = display_thread s"
  using assms by (simp add: start_simulation_def Let_def)

theorem start_simulation_bad_car_count_witness:
  "cars_entry (init_sim\<lparr>cars_entry := None\<rparr>) = None \<and>
   fst (start_simulation (init_sim\<lparr>cars_entry := None\<rparr>) []) = Some ValueError \<and>
   road1 (snd (start_simulation (init_sim\<lparr>cars_entry := None\<rparr>) [])) = road1 init_sim \<and>
   light_pool (snd (start_simulation (init_sim\<lparr>cars_entry := None\<rparr>) [])) = []"
proof -
  have h: "cars_entry (init_sim\<lparr>cars_entry := None\<rparr>) = None" by simp
  from start_simulation_bad_car_count[OF h, of "[]"] h
  show ?thesis by (simp add: init_sim_def)
qed

text \<open>The claim as stated fails twice. A start that fails on the car count has
  already set the running flag. And a K input that is not a number makes no
  start fail: the run is launched, here with a car count of -5 and so with no
  car.\<close>

theorem start_simulation_failure_not_clean:
  "fst (start_simulation (init_sim\<lparr>cars_entry := None\<rparr>) []) = Some ValueError \<and>
   \<not> is_running (init_sim\<lparr>cars_entry := None\<rparr>) \<and>
   is_running (snd (start_simulation (init_sim\<lparr>cars_entry := None\<rparr>) [])) \<and>
   fst (start_simulation (init_sim\<lparr>cars_entry := Some (- 5), k_entry := None\<rparr>) []) = None \<and>
   light_pool (snd (start_simulation (init_sim\<lparr>cars_entry := Some (- 5), k_entry := None\<rparr>) []))
     = [L_while]"
  by (simp add: start_simulation_def init_sim_def spawned_cars_def)

text \<open>
  Claim C9, as amended. \<^verbatim>\<open>start_simulation\<close> has no guard of its own; the guard
  is in \<^verbatim>\<open>toggle_simulation\<close>, its only caller. While a run is active a click
  calls \<^verbatim>\<open>stop_simulation\<close> instead, which raises nothing and starts no thread
  (it ends the run and empties both roads).
\<close>

theorem toggle_guards_start:
  assumes "is_running s"
  shows "toggle_simulation s rs = (None, stop_simulation s) \<and>
         length (car_pool (stop_simulation s)) = length (car_pool s) \<and>
         light_pool (stop_simulation s) = light_pool s \<and>
         display_pool (stop_simulation s) = display_pool s"
  using assms by (simp add: toggle_simulation_def)

theorem toggle_guards_start_witness:
  "is_running running_state \<and>
   toggle_simulation running_state [] = (None, stop_simulation running_state) \<and>
   length (car_pool (stop_simulation running_state)) = 1 \<and>
   light_pool (stop_simulation running_state) = [L_while]"
proof -
  have h: "is_running running_state" by (simp add: running_state_def)
  from toggle_guards_start[OF h, of "[]"] h show ?thesis by (simp add: running_state_def)
qed

text \<open>The claim as stated fails: called while a run is active,
  \<^verbatim>\<open>start_simulation\<close> empties the roads of that run and starts a second light
  thread, a second display thread and a new car thread.\<close>

theorem start_simulation_not_guarded:
  "exec init_sim run_trace = Some running_state \<and> is_running running_state \<and>
   cars (road1 running_state) = [0] \<and>
   fst (start_simulation running_state [2]) = None \<and>
   cars (road1 (snd (start_simulation running_state [2]))) = [] \<and>
   light_pool (snd (start_simulation running_state [2])) = [L_while, L_while] \<and>
   display_pool (snd (start_simulation running_state [2])) = [D_while, D_while] \<and>
   length (car_pool (snd (start_simulation running_state [2]))) = 2"
  by (simp add: run_trace_def running_state_def eval_defs)

text \<open>
  Claim C3. The claim says that a car whose waiting time passes the maximum is
  removed from its road's list and never crosses. The code does the second but
  not the first: on the time-out \<^verbatim>\<open>car_process\<close> leaves its loop and, as the car
  is not crossing, returns without touching \<^verbatim>\<open>road.cars\<close>. In the run below the
  waiting time of the car has passed \<^verbatim>\<open>MAX_WAITING_TIME\<close>, its thread has
  returned and can take no further step, and the car is still in the list of
  road 1, in state WAITING.
\<close>

theorem timed_out_car_stays_listed:
  "exec init_sim starvation_trace = Some abandoned_state \<and>
   MAX_WAITING_TIME < waiting_time (car (car_pool abandoned_state ! 0)) \<and>
   pc (car_pool abandoned_state ! 0) = At_done \<and>
   state (car (car_pool abandoned_state ! 0)) = Waiting \<and>
   cars (road1 abandoned_state) = [0] \<and>
   step abandoned_state (CarStep 0 0) = None"
proof -
  have "exec init_sim starvation_trace = Some abandoned_state"
    using wait_rounds_run[of 0 300]
    by (simp add: starvation_trace_def exec_append starve_prefix_run last_round_run)
  moreover have "MAX_WAITING_TIME < waiting_time (car (car_pool abandoned_state ! 0))"
    "pc (car_pool abandoned_state ! 0) = At_done"
    "state (car (car_pool abandoned_state ! 0)) = Waiting"
    "cars (road1 abandoned_state) = [0]"
    "step abandoned_state (CarStep 0 0) = None"
    by (simp_all add: abandoned_state_def MAX_WAITING_TIME_def step_def car_process_def)
  ultimately show ?thesis by simp
qed

end
